theory Spec2Isabelle
  imports Main "HOL-Library.Sublist"
begin

section \<open>Strings of the host language\<close>

text \<open>
  The source is TypeScript. Its strings are sequences of UTF-16 code units; here a
  string is a \<^typ>\<open>char list\<close> and a \<^typ>\<open>char\<close> stands for the code unit of the
  same number, so the model covers the strings whose code units lie in U+0000..U+00FF
  (the office table of the source is plain ASCII). On that range \<open>toLowerCase\<close> works
  unit by unit and \<open>trim\<close> removes the units below.
\<close>

text \<open>
  White space and line terminators of ECMAScript below U+0100: TAB, LF, VT, FF, CR,
  SPACE and NO-BREAK SPACE.
\<close>

definition isWhiteSpace :: "char \<Rightarrow> bool" where
  "isWhiteSpace c = ((of_char c :: nat) \<in> {9, 10, 11, 12, 13, 32, 160})"

text \<open>\<open>String.prototype.trim\<close>: strip white space at both ends.\<close>

definition trim :: "string \<Rightarrow> string" where
  "trim s = rev (dropWhile isWhiteSpace (rev (dropWhile isWhiteSpace s)))"

text \<open>
  Lower-casing of one code unit: \<open>A\<close>..\<open>Z\<close> and the Latin-1 capitals U+00C0..U+00DE
  (U+00D7, the multiplication sign, is not a letter) move up by 32; every other unit
  stays.
\<close>

definition lowerChar :: "char \<Rightarrow> char" where
  "lowerChar c =
     (let n = (of_char c :: nat)
      in if (65 \<le> n \<and> n \<le> 90) \<or> (192 \<le> n \<and> n \<le> 222 \<and> n \<noteq> 215)
         then char_of (n + 32) else c)"

definition toLowerCase :: "string \<Rightarrow> string" where
  "toLowerCase s = map lowerChar s"

text \<open>
  \<open>String.prototype.includes\<close>: \<open>includes_str h q\<close> is \<open>h.includes(q)\<close>, a search
  for \<open>q\<close> at every position of \<open>h\<close>.
\<close>

fun includes_str :: "string \<Rightarrow> string \<Rightarrow> bool" where
  "includes_str [] q = (q = [])"
| "includes_str (c # cs) q = (prefix q (c # cs) \<or> includes_str cs q)"


section \<open>The locator filter\<close>

record DmvOffice =
  name :: string
  address :: string
  phone :: string

text \<open>
  \<^verbatim>\<open>
  function filterDmvs(permitDmvs: DmvOffice[], query: string) {
    const q = query.trim().toLowerCase();
    if (!q) return permitDmvs;
    return permitDmvs.filter((d) =>
      `${d.name} ${d.address} ${d.phone}`.toLowerCase().includes(q)
    );
  }
  \<close>
  \<open>!q\<close> holds of a string exactly when it is empty.
\<close>

definition filterDmvs :: "DmvOffice list \<Rightarrow> string \<Rightarrow> DmvOffice list" where
  "filterDmvs permitDmvs query =
     (let q = toLowerCase (trim query)
      in if q = [] then permitDmvs
         else filter
                (\<lambda>d. includes_str (toLowerCase (name d @ '' '' @ address d @ '' '' @ phone d)) q)
                permitDmvs)"

text \<open>Two rows of the source's office table \<open>permitDmvs\<close>.\<close>

definition afton :: DmvOffice where
  "afton = \<lparr>name = ''AFTON (003)'', address = ''9513 Gravois Rd, Afton'',
            phone = ''(314) 631-1311''\<rparr>"

definition clayton :: DmvOffice where
  "clayton = \<lparr>name = ''CLAYTON (162)'', address = ''141 N Meramec Ave Ste 201, Clayton'',
              phone = ''(314) 499-7223''\<rparr>"

subsection \<open>The filter as the specification words it\<close>

text \<open>
  \<open>q\<close> is a case-insensitive substring of \<open>h\<close> when it occurs in \<open>h\<close> as a contiguous
  block once both are written in lower case.
\<close>

definition ci_substring :: "string \<Rightarrow> string \<Rightarrow> bool" where
  "ci_substring q h = sublist (toLowerCase q) (toLowerCase h)"

text \<open>
  An office matches a query when its name, address and phone, joined in that order
  with single spaces, contain the lower-cased trimmed query as a case-insensitive
  substring.
\<close>

definition office_matches :: "DmvOffice \<Rightarrow> string \<Rightarrow> bool" where
  "office_matches d query =
     ci_substring (toLowerCase (trim query)) (name d @ '' '' @ address d @ '' '' @ phone d)"


subsection \<open>Case variants\<close>






section \<open>Values read from and written to the storage slot\<close>

text \<open>
  What \<open>JSON.parse\<close> can return. The number type is a parameter: the code only asks
  whether a value is a number, and \<open>Date.now()\<close> supplies one. An object is the list
  of its own properties, each key once (a lookup takes the first entry of a key).
\<close>

datatype 'n json =
    JNull
  | JBool bool
  | JNum 'n
  | JStr string
  | JArr "'n json list"
  | JObj "(string \<times> 'n json) list"

text \<open>
  Reading the property \<open>k\<close> of \<open>x\<close>; \<open>None\<close> is \<open>undefined\<close>. Only an object
  parsed from JSON can own \<open>type\<close>, \<open>text\<close> or \<open>createdAt\<close>: on a primitive or an
  array the read finds nothing. The source guards the reads with \<open>x &&\<close>, so that
  \<open>null\<close> is rejected instead of raising; here the read of \<open>JNull\<close> is \<open>None\<close> and
  the element is rejected all the same.
\<close>

fun get_prop :: "'n json \<Rightarrow> string \<Rightarrow> 'n json option" where
  "get_prop (JObj kvs) k = map_of kvs k"
| "get_prop _ k = None"

definition typeof :: "'n json option \<Rightarrow> string" where
  "typeof v =
     (case v of
        None \<Rightarrow> ''undefined''
      | Some JNull \<Rightarrow> ''object''
      | Some (JBool _) \<Rightarrow> ''boolean''
      | Some (JNum _) \<Rightarrow> ''number''
      | Some (JStr _) \<Rightarrow> ''string''
      | Some (JArr _) \<Rightarrow> ''object''
      | Some (JObj _) \<Rightarrow> ''object'')"

text \<open>
  The shape check of the load effect:
  \<^verbatim>\<open>
  x &&
  (x.type === "General Comment" || x.type === "Request to Edit Steps") &&
  typeof x.text === "string" &&
  typeof x.createdAt === "number"
  \<close>
\<close>

definition shape_ok :: "'n json \<Rightarrow> bool" where
  "shape_ok x =
     ((get_prop x ''type'' = Some (JStr ''General Comment'') \<or>
       get_prop x ''type'' = Some (JStr ''Request to Edit Steps'')) \<and>
      typeof (get_prop x ''text'') = ''string'' \<and>
      typeof (get_prop x ''createdAt'') = ''number'')"


section \<open>The comment store\<close>

text \<open>The two values of \<open>CommentItem["type"]\<close> and the strings they are.\<close>

datatype comment_type = GeneralComment | RequestToEditSteps

fun type_label :: "comment_type \<Rightarrow> string" where
  "type_label GeneralComment = ''General Comment''"
| "type_label RequestToEditSteps = ''Request to Edit Steps''"

text \<open>What the calls made inside the two \<open>try\<close> blocks can raise.\<close>

datatype error = SecurityError | SyntaxError | QuotaExceededError

text \<open>
  \<open>JSON.parse\<close> and \<open>JSON.stringify\<close> belong to the host, not to the repository: they
  are parameters. \<open>JSON_parse P raw = None\<close> is the parser raising \<open>SyntaxError\<close>.
\<close>

record 'n platform =
  JSON_parse :: "string \<Rightarrow> 'n json option"
  JSON_stringify :: "'n json \<Rightarrow> string"

text \<open>
  The component's three state variables (\<open>type\<close>, \<open>text\<close>, \<open>comments\<close>), the value
  stored under the key \<open>stl_intl_dl_comments_v1\<close> (\<open>None\<close>: no such key), and a log of
  the \<open>setItem\<close> calls made so far, each with the text written and whether the write
  went through. One page session is modelled; nothing else writes the slot.
\<close>

record 'n world =
  type_st :: comment_type
  text_st :: string
  comments :: "'n json list"
  storage :: "string option"
  writes :: "(string \<times> bool) list"

text \<open>
  \<open>window.localStorage.getItem(STORAGE_KEY)\<close>; it raises when the storage cannot be
  reached (\<open>readable\<close> is false).
\<close>

definition getItem :: "bool \<Rightarrow> 'n world \<Rightarrow> error + string option" where
  "getItem readable w = (if readable then Inr (storage w) else Inl SecurityError)"

text \<open>
  \<open>window.localStorage.setItem(STORAGE_KEY, v)\<close>; it raises, and stores nothing, when
  the write fails (\<open>ok\<close> is false: quota exceeded, storage unavailable).
\<close>

definition setItem :: "bool \<Rightarrow> string \<Rightarrow> 'n world \<Rightarrow> error + 'n world" where
  "setItem ok v w = (if ok then Inr (w\<lparr>storage := Some v\<rparr>) else Inl QuotaExceededError)"

text \<open>
  The body of the load effect's \<open>try\<close> block. \<open>Inr (Some safe)\<close> is a call
  \<open>setComments(safe)\<close>, \<open>Inr None\<close> an early \<open>return\<close>, \<open>Inl e\<close> an exception.
  \<^verbatim>\<open>
  const raw = window.localStorage.getItem(STORAGE_KEY);
  if (!raw) return;
  const parsed = JSON.parse(raw);
  if (!Array.isArray(parsed)) return;
  const safe = parsed.filter((x: any) => ...).slice(0, 200);
  setComments(safe);
  \<close>
  \<open>!raw\<close> holds of \<open>null\<close> and of the empty string.
\<close>

definition load_body :: "'n platform \<Rightarrow> bool \<Rightarrow> 'n world \<Rightarrow> error + 'n json list option" where
  "load_body P readable w =
     (case getItem readable w of
        Inl e \<Rightarrow> Inl e
      | Inr None \<Rightarrow> Inr None
      | Inr (Some raw) \<Rightarrow>
          if raw = [] then Inr None
          else (case JSON_parse P raw of
                  None \<Rightarrow> Inl SyntaxError
                | Some (JArr parsed) \<Rightarrow> Inr (Some (take 200 (filter shape_ok parsed)))
                | Some _ \<Rightarrow> Inr None))"

text \<open>The load effect: \<open>try { ... } catch { /* ignore */ }\<close>.\<close>

definition load_effect :: "'n platform \<Rightarrow> bool \<Rightarrow> 'n world \<Rightarrow> 'n json list option" where
  "load_effect P readable w = (case load_body P readable w of Inl e \<Rightarrow> None | Inr r \<Rightarrow> r)"

text \<open>
  The save effect, run after every render in which \<open>comments\<close> has changed:
  \<^verbatim>\<open>
  try {
    window.localStorage.setItem(STORAGE_KEY, JSON.stringify(comments));
  } catch {
    // ignore
  }
  \<close>
\<close>

definition save_effect :: "'n platform \<Rightarrow> bool \<Rightarrow> 'n world \<Rightarrow> 'n world" where
  "save_effect P ok w =
     (let v = JSON_stringify P (JArr (comments w));
          w' = w\<lparr>writes := writes w @ [(v, ok)]\<rparr>
      in case setItem ok v w' of Inl e \<Rightarrow> w' | Inr w'' \<Rightarrow> w'')"

text \<open>The state of the first render: the \<open>useState\<close> initial values.\<close>

definition initial :: "string option \<Rightarrow> 'n world" where
  "initial stored =
     \<lparr>type_st = GeneralComment, text_st = [], comments = [], storage = stored, writes = []\<rparr>"

text \<open>
  Mounting the component. After the first render both effects run in the order they
  are declared: the load effect reads the slot and may ask for a new list, the save
  effect writes the list of the first render (the empty one). If the load effect called
  \<open>setComments(safe)\<close>, the component renders again with \<open>safe\<close> (a fresh array, so
  the state has changed) and the save effect runs a second time.
\<close>

definition mount :: "'n platform \<Rightarrow> bool \<Rightarrow> bool \<Rightarrow> bool \<Rightarrow> string option \<Rightarrow> 'n world" where
  "mount P readable ok1 ok2 stored =
     (let w0 = initial stored;
          loaded = load_effect P readable w0;
          w1 = save_effect P ok1 w0
      in case loaded of
           None \<Rightarrow> w1
         | Some safe \<Rightarrow> save_effect P ok2 (w1\<lparr>comments := safe\<rparr>))"

text \<open>The \<open>onChange\<close> handlers of the select and of the text area.\<close>

definition setType :: "comment_type \<Rightarrow> 'n world \<Rightarrow> 'n world" where
  "setType k w = w\<lparr>type_st := k\<rparr>"

definition setText :: "string \<Rightarrow> 'n world \<Rightarrow> 'n world" where
  "setText s w = w\<lparr>text_st := s\<rparr>"

text \<open>The object literal \<open>{ type, text: trimmed, createdAt: Date.now() }\<close>.\<close>

definition new_comment :: "comment_type \<Rightarrow> string \<Rightarrow> 'n \<Rightarrow> 'n json" where
  "new_comment k trimmed now =
     JObj [(''type'', JStr (type_label k)), (''text'', JStr trimmed), (''createdAt'', JNum now)]"

text \<open>
  \<^verbatim>\<open>
  const handleSubmit = () => {
    const trimmed = text.trim();
    if (!trimmed) return;
    setComments((prev) => [{ type, text: trimmed, createdAt: Date.now() }, ...prev]);
    setText("");
  };
  \<close>
  \<open>now\<close> is what \<open>Date.now()\<close> returns in this call and \<open>ok\<close> whether the write of
  the save effect, which the change of \<open>comments\<close> triggers, goes through.
\<close>

definition handleSubmit :: "'n platform \<Rightarrow> 'n \<Rightarrow> bool \<Rightarrow> 'n world \<Rightarrow> 'n world" where
  "handleSubmit P now ok w =
     (let trimmed = trim (text_st w)
      in if trimmed = [] then w
         else save_effect P ok
                (setText [] (w\<lparr>comments := new_comment (type_st w) trimmed now # comments w\<rparr>)))"

text \<open>
  The specification's operation \<open>submit(kind, rawText)\<close>: the user picks \<open>kind\<close>, types
  \<open>rawText\<close> and presses the button.
\<close>

definition submit ::
  "'n platform \<Rightarrow> 'n \<Rightarrow> bool \<Rightarrow> comment_type \<Rightarrow> string \<Rightarrow> 'n world \<Rightarrow> 'n world" where
  "submit P now ok kind rawText w = handleSubmit P now ok (setText rawText (setType kind w))"

text \<open>
  A session: the mount, then submissions one after the other, each with its clock
  reading and the outcome of its write.
\<close>

datatype 'n submission = Submission comment_type string 'n bool

fun apply_submission :: "'n platform \<Rightarrow> 'n submission \<Rightarrow> 'n world \<Rightarrow> 'n world" where
  "apply_submission P (Submission kind rawText now ok) w = submit P now ok kind rawText w"

definition session ::
  "'n platform \<Rightarrow> bool \<Rightarrow> bool \<Rightarrow> bool \<Rightarrow> string option \<Rightarrow> 'n submission list \<Rightarrow> 'n world" where
  "session P readable ok1 ok2 stored subs =
     fold (apply_submission P) subs (mount P readable ok1 ok2 stored)"

subsection \<open>Notions used to state the results\<close>

text \<open>The in-memory part of the state: what the component holds, without the slot.\<close>

definition in_memory :: "'n world \<Rightarrow> comment_type \<times> string \<times> 'n json list" where
  "in_memory w = (type_st w, text_st w, comments w)"

text \<open>The same submission with a write that goes through.\<close>

fun write_succeeds :: "'n submission \<Rightarrow> 'n submission" where
  "write_succeeds (Submission kind rawText now ok) = Submission kind rawText now True"

text \<open>A submission is accepted when its text does not trim to the empty string.\<close>

fun accepted :: "'n submission \<Rightarrow> bool" where
  "accepted (Submission kind rawText now ok) = (trim rawText \<noteq> [])"

text \<open>The text field of a comment is a string that is not empty.\<close>

definition nonempty_text :: "'n json \<Rightarrow> bool" where
  "nonempty_text c = (case get_prop c ''text'' of Some (JStr s) \<Rightarrow> s \<noteq> [] | _ \<Rightarrow> False)"

text \<open>The elements of the stored array; none when the slot holds no array.\<close>

definition stored_elements :: "'n platform \<Rightarrow> string option \<Rightarrow> 'n json list" where
  "stored_elements P stored =
     (case stored of
        None \<Rightarrow> []
      | Some raw \<Rightarrow> (case JSON_parse P raw of Some (JArr xs) \<Rightarrow> xs | _ \<Rightarrow> []))"

text \<open>
  The latest \<open>setItem\<close> call carried the serialised current list, and the slot holds it
  if that call went through.
\<close>

definition persisted :: "'n platform \<Rightarrow> 'n world \<Rightarrow> bool" where
  "persisted P w =
     (writes w \<noteq> [] \<and>
      fst (last (writes w)) = JSON_stringify P (JArr (comments w)) \<and>
      (snd (last (writes w)) \<longrightarrow> storage w = Some (JSON_stringify P (JArr (comments w)))))"

subsection \<open>Concrete stored values\<close>

text \<open>
  A host given by a finite table of JSON texts and the values they denote: parsing
  looks the text up, serialising looks the value up.
\<close>

definition table_platform :: "(string \<times> 'n json) list \<Rightarrow> 'n platform" where
  "table_platform tbl =
     \<lparr>JSON_parse = map_of tbl,
      JSON_stringify = (\<lambda>v. case find (\<lambda>(t, u). u = v) tbl of Some (t, u) \<Rightarrow> t | None \<Rightarrow> [])\<rparr>"

fun join_comma :: "string list \<Rightarrow> string" where
  "join_comma [] = []"
| "join_comma [x] = x"
| "join_comma (x # y # ys) = x @ '','' @ join_comma (y # ys)"

definition array_text :: "string list \<Rightarrow> string" where
  "array_text elems = ''['' @ join_comma elems @ '']''"

definition valid_comment :: "int json" where
  "valid_comment =
     JObj [(''type'', JStr ''General Comment''), (''text'', JStr ''hello''),
           (''createdAt'', JNum 1)]"

definition valid_text :: string where
  \<open>valid_text = ''{"type":"General Comment","text":"hello","createdAt":1}''\<close>

definition no_text_comment :: "int json" where
  "no_text_comment = JObj [(''type'', JStr ''General Comment''), (''createdAt'', JNum 2)]"

definition no_text_text :: string where
  \<open>no_text_text = ''{"type":"General Comment","createdAt":2}''\<close>

definition blank_comment :: "int json" where
  "blank_comment =
     JObj [(''type'', JStr ''General Comment''), (''text'', JStr []), (''createdAt'', JNum 1)]"

definition blank_text :: string where
  \<open>blank_text = ''{"type":"General Comment","text":"","createdAt":1}''\<close>

definition raw200 :: string where
  "raw200 = array_text (replicate 200 valid_text)"

definition raw250 :: string where
  "raw250 = array_text (replicate 250 valid_text)"


section \<open>Facts about strings\<close>

lemma lowerChar_idem: "lowerChar (lowerChar c) = lowerChar c"
proof -
  define n where "n = (of_char c :: nat)"
  show ?thesis
  proof (cases "(65 \<le> n \<and> n \<le> 90) \<or> (192 \<le> n \<and> n \<le> 222 \<and> n \<noteq> 215)")
    case True
    then have lc: "lowerChar c = char_of (n + 32)"
      by (simp add: lowerChar_def n_def Let_def)
    from True have "(of_char (char_of (n + 32)) :: nat) = n + 32"
      by (auto simp: of_char_of)
    with True have "lowerChar (char_of (n + 32)) = char_of (n + 32)"
      by (auto simp: lowerChar_def Let_def)
    with lc show ?thesis by simp
  next
    case False
    then have "lowerChar c = c"
      unfolding n_def by (auto simp: lowerChar_def Let_def)
    then show ?thesis by simp
  qed
qed

lemma toLowerCase_idem: "toLowerCase (toLowerCase s) = toLowerCase s"
  by (simp add: toLowerCase_def lowerChar_idem)

lemma toLowerCase_Nil_iff: "toLowerCase s = [] \<longleftrightarrow> s = []"
  by (simp add: toLowerCase_def)

lemma includes_str_sublist: "includes_str h q = sublist q h"
  by (induction h) (auto simp: sublist_Cons_right)







section \<open>The locator filter: results\<close>

text \<open>
  C6. A query that trims to the empty string (the empty query, or white space only)
  makes the filter the identity: it returns the office list it was given, every
  element, in the same order.
\<close>

theorem filterDmvs_empty_query:
  "trim query = [] \<Longrightarrow> filterDmvs offices query = offices"
  by (simp add: filterDmvs_def toLowerCase_def)

theorem filterDmvs_empty_query_witness:
  "trim ''   '' = [] \<and> filterDmvs [afton, clayton] ''   '' = [afton, clayton]"
proof -
  have h: "trim ''   '' = []" by code_simp
  show ?thesis by (rule conjI [OF h filterDmvs_empty_query [OF h]])
qed

text \<open>
  C1. For a query whose trimmed form is not empty, the filter returns exactly the
  offices, in their original relative order, whose name, address and phone (joined in
  that order with single spaces) contain the lower-cased trimmed query as a
  case-insensitive substring.
\<close>

theorem filterDmvs_spec:
  "trim query \<noteq> [] \<Longrightarrow>
   filterDmvs offices query = filter (\<lambda>d. office_matches d query) offices"
  by (simp add: filterDmvs_def office_matches_def ci_substring_def includes_str_sublist
      toLowerCase_idem toLowerCase_Nil_iff)

theorem filterDmvs_spec_witness:
  "trim ''gravois'' \<noteq> [] \<and> trim ''314'' \<noteq> [] \<and>
   filter (\<lambda>d. office_matches d ''gravois'') [afton, clayton] = [afton] \<and>
   filter (\<lambda>d. office_matches d ''314'') [afton, clayton] = [afton, clayton]"
proof -
  have h1: "trim ''gravois'' \<noteq> []" by code_simp
  have h2: "trim ''314'' \<noteq> []" by code_simp
  have e1: "filterDmvs [afton, clayton] ''gravois'' = [afton]" by code_simp
  have e2: "filterDmvs [afton, clayton] ''314'' = [afton, clayton]" by code_simp
  from e1 have r1: "filter (\<lambda>d. office_matches d ''gravois'') [afton, clayton] = [afton]"
    unfolding filterDmvs_spec [OF h1] .
  from e2 have r2: "filter (\<lambda>d. office_matches d ''314'') [afton, clayton] = [afton, clayton]"
    unfolding filterDmvs_spec [OF h2] .
  show ?thesis by (intro conjI h1 h2 r1 r2)
qed





section \<open>Facts about the comment store\<close>

lemma comments_save_effect: "comments (save_effect P ok w) = comments w"
  by (simp add: save_effect_def setItem_def Let_def)

lemma type_st_save_effect: "type_st (save_effect P ok w) = type_st w"
  by (simp add: save_effect_def setItem_def Let_def)

lemma text_st_save_effect: "text_st (save_effect P ok w) = text_st w"
  by (simp add: save_effect_def setItem_def Let_def)

lemma writes_save_effect:
  "writes (save_effect P ok w) = writes w @ [(JSON_stringify P (JArr (comments w)), ok)]"
  by (simp add: save_effect_def setItem_def Let_def)

lemma storage_save_effect:
  "storage (save_effect P ok w) =
     (if ok then Some (JSON_stringify P (JArr (comments w))) else storage w)"
  by (simp add: save_effect_def setItem_def Let_def)

lemmas save_effect_fields =
  comments_save_effect type_st_save_effect text_st_save_effect writes_save_effect
  storage_save_effect

lemma persisted_save_effect: "persisted P (save_effect P ok w)"
  by (simp add: persisted_def save_effect_fields)

lemma storage_initial: "storage (initial stored) = stored"
  by (simp add: initial_def)

lemma load_effect_unreadable: "load_effect P False w = None"
  by (simp add: load_effect_def load_body_def getItem_def)

lemma load_effect_absent: "storage w = None \<Longrightarrow> load_effect P readable w = None"
  by (simp add: load_effect_def load_body_def getItem_def)

lemma load_effect_blank: "storage w = Some [] \<Longrightarrow> load_effect P readable w = None"
  by (simp add: load_effect_def load_body_def getItem_def)

lemma load_effect_unparseable:
  "storage w = Some raw \<Longrightarrow> JSON_parse P raw = None \<Longrightarrow> load_effect P readable w = None"
  by (simp add: load_effect_def load_body_def getItem_def)

lemma load_effect_not_array:
  "storage w = Some raw \<Longrightarrow> JSON_parse P raw = Some v \<Longrightarrow> \<forall>xs. v \<noteq> JArr xs \<Longrightarrow>
   load_effect P readable w = None"
  by (cases v) (simp_all add: load_effect_def load_body_def getItem_def)

lemma load_effect_array:
  "storage w = Some raw \<Longrightarrow> raw \<noteq> [] \<Longrightarrow> JSON_parse P raw = Some (JArr xs) \<Longrightarrow>
   load_effect P True w = Some (take 200 (filter shape_ok xs))"
  by (simp add: load_effect_def load_body_def getItem_def)

lemma load_effect_cases:
  "load_effect P readable w = None \<or>
   (\<exists>raw xs. storage w = Some raw \<and> JSON_parse P raw = Some (JArr xs) \<and>
      load_effect P readable w = Some (take 200 (filter shape_ok xs)))"
  by (auto simp: load_effect_def load_body_def getItem_def split: option.splits json.splits)

lemma comments_mount:
  "comments (mount P readable ok1 ok2 stored) =
     (case load_effect P readable (initial stored) of None \<Rightarrow> [] | Some safe \<Rightarrow> safe)"
  by (simp add: mount_def Let_def save_effect_fields initial_def split: option.split)

lemma comments_mount_array:
  "raw \<noteq> [] \<Longrightarrow> JSON_parse P raw = Some (JArr xs) \<Longrightarrow>
   comments (mount P True ok1 ok2 (Some raw)) = take 200 (filter shape_ok xs)"
  by (simp add: comments_mount load_effect_array [where raw = raw] storage_initial)

lemma comments_mount_stored:
  "set (comments (mount P readable ok1 ok2 stored))
     \<subseteq> {x \<in> set (stored_elements P stored). shape_ok x}"
proof -
  consider "load_effect P readable (initial stored) = None"
    | raw xs where "stored = Some raw" "JSON_parse P raw = Some (JArr xs)"
        "load_effect P readable (initial stored) = Some (take 200 (filter shape_ok xs))"
    using load_effect_cases [of P readable "initial stored"] by (auto simp: storage_initial)
  then show ?thesis
  proof cases
    case 1
    then show ?thesis by (simp add: comments_mount)
  next
    case 2
    have "set (take 200 (filter shape_ok xs)) \<subseteq> set (filter shape_ok xs)"
      by (rule set_take_subset)
    with 2 show ?thesis
      by (auto simp: comments_mount stored_elements_def)
  qed
qed

lemma length_comments_mount: "length (comments (mount P readable ok1 ok2 stored)) \<le> 200"
  using load_effect_cases [of P readable "initial stored"]
  by (auto simp: comments_mount)

lemma persisted_mount: "persisted P (mount P readable ok1 ok2 stored)"
  by (simp add: mount_def Let_def persisted_save_effect split: option.split)

lemma in_memory_mount:
  "in_memory (mount P readable ok1 ok2 stored) = in_memory (mount P readable ok1' ok2' stored)"
  by (simp add: in_memory_def mount_def Let_def save_effect_fields split: option.split)

lemma handleSubmit_blank: "trim (text_st w) = [] \<Longrightarrow> handleSubmit P now ok w = w"
  by (simp add: handleSubmit_def)

lemma submit_blank:
  "trim rawText = [] \<Longrightarrow>
   submit P now ok kind rawText w = setText rawText (setType kind w)"
  by (simp add: submit_def handleSubmit_def setText_def setType_def)

lemma submit_accepted:
  "trim rawText \<noteq> [] \<Longrightarrow>
   submit P now ok kind rawText w =
     save_effect P ok
       (w\<lparr>type_st := kind,
          comments := new_comment kind (trim rawText) now # comments w, text_st := []\<rparr>)"
  by (simp add: submit_def handleSubmit_def setText_def setType_def Let_def)

lemma comments_submit:
  "comments (submit P now ok kind rawText w) =
     (if trim rawText = [] then comments w
      else new_comment kind (trim rawText) now # comments w)"
  by (simp add: submit_blank submit_accepted save_effect_fields setText_def setType_def)

lemma in_memory_submit:
  "in_memory w = in_memory w' \<Longrightarrow>
   in_memory (submit P now ok kind rawText w) = in_memory (submit P now ok' kind rawText w')"
  by (cases "trim rawText = []")
     (simp_all add: in_memory_def submit_blank submit_accepted save_effect_fields
        setText_def setType_def)

lemma in_memory_fold:
  "in_memory w = in_memory w' \<Longrightarrow>
   in_memory (fold (apply_submission P) subs w)
     = in_memory (fold (apply_submission P) (map write_succeeds subs) w')"
proof (induction subs arbitrary: w w')
  case Nil
  then show ?case by simp
next
  case (Cons s subs)
  obtain kind rawText now ok where s: "s = Submission kind rawText now ok"
    by (cases s)
  have "in_memory (submit P now ok kind rawText w) = in_memory (submit P now True kind rawText w')"
    by (rule in_memory_submit [OF Cons.prems])
  then show ?case
    using Cons.IH by (simp add: s)
qed

lemma persisted_submit:
  assumes "persisted P w"
  shows "persisted P (submit P now ok kind rawText w)"
proof (cases "trim rawText = []")
  case True
  with assms show ?thesis
    by (simp add: submit_blank persisted_def setText_def setType_def)
next
  case False
  then show ?thesis
    by (simp add: submit_accepted persisted_save_effect)
qed

lemma persisted_fold:
  "persisted P w \<Longrightarrow> persisted P (fold (apply_submission P) subs w)"
proof (induction subs arbitrary: w)
  case Nil
  then show ?case by simp
next
  case (Cons s subs)
  obtain kind rawText now ok where s: "s = Submission kind rawText now ok"
    by (cases s)
  from Cons.prems have "persisted P (submit P now ok kind rawText w)"
    by (rule persisted_submit)
  then show ?case
    using Cons.IH by (simp add: s)
qed

lemma length_comments_fold:
  "length (comments (fold (apply_submission P) subs w))
     = length (comments w) + length (filter accepted subs)"
proof (induction subs arbitrary: w)
  case Nil
  then show ?case by simp
next
  case (Cons s subs)
  obtain kind rawText now ok where s: "s = Submission kind rawText now ok"
    by (cases s)
  show ?case
    by (simp add: s Cons.IH comments_submit)
qed

lemma shape_ok_new_comment: "shape_ok (new_comment kind trimmed now)"
  by (cases kind) (simp_all add: shape_ok_def new_comment_def typeof_def)

lemma nonempty_text_new_comment:
  "trimmed \<noteq> [] \<Longrightarrow> nonempty_text (new_comment kind trimmed now)"
  by (simp add: nonempty_text_def new_comment_def)

lemma all_comments_fold:
  assumes "\<forall>c \<in> set (comments w). Q c"
    and "\<And>kind trimmed now. trimmed \<noteq> [] \<Longrightarrow> Q (new_comment kind trimmed now)"
  shows "\<forall>c \<in> set (comments (fold (apply_submission P) subs w)). Q c"
  using assms(1)
proof (induction subs arbitrary: w)
  case Nil
  then show ?case by simp
next
  case (Cons s subs)
  obtain kind rawText now ok where s: "s = Submission kind rawText now ok"
    by (cases s)
  from Cons.prems have "\<forall>c \<in> set (comments (submit P now ok kind rawText w)). Q c"
    by (simp add: comments_submit assms(2))
  then show ?case
    using Cons.IH by (simp add: s)
qed

lemma shape_ok_text_string:
  "shape_ok c \<Longrightarrow> \<exists>s. get_prop c ''text'' = Some (JStr s)"
  by (auto simp: shape_ok_def typeof_def split: option.splits json.splits)

lemma initial_fields:
  "type_st (initial stored) = GeneralComment" "text_st (initial stored) = []"
  "comments (initial stored) = []" "writes (initial stored) = []"
  by (simp_all add: initial_def)

lemma shape_ok_valid_comment: "shape_ok valid_comment"
  by (simp add: shape_ok_def valid_comment_def typeof_def)

lemma raw200_not_Nil: "raw200 \<noteq> []"
  by (simp add: raw200_def array_text_def)

lemma raw250_not_Nil: "raw250 \<noteq> []"
  by (simp add: raw250_def array_text_def)


section \<open>The comment store: results\<close>

text \<open>
  C2. Initialisation. When the slot is absent, holds the empty string, cannot be read,
  does not parse or parses to something that is not an array, the comment list is
  empty. When it parses to an array, the list is the elements that pass the shape check
  (type one of the two labels, text a string, createdAt a number), in their order, cut
  to the first 200. So 250 valid comments load as the first 200 of them, and a valid
  comment followed by an object without text loads as the valid one alone.
\<close>

theorem initialize_comment_list:
  "comments (mount P readable ok1 ok2 None) = [] \<and>
   comments (mount P readable ok1 ok2 (Some [])) = [] \<and>
   comments (mount P False ok1 ok2 stored) = [] \<and>
   (JSON_parse P raw = None \<longrightarrow> comments (mount P readable ok1 ok2 (Some raw)) = []) \<and>
   (JSON_parse P raw = Some v \<and> (\<forall>xs. v \<noteq> JArr xs) \<longrightarrow>
      comments (mount P readable ok1 ok2 (Some raw)) = []) \<and>
   (raw \<noteq> [] \<and> JSON_parse P raw = Some (JArr xs) \<longrightarrow>
      comments (mount P True ok1 ok2 (Some raw)) = take 200 (filter shape_ok xs)) \<and>
   (raw \<noteq> [] \<and> JSON_parse P raw = Some (JArr xs) \<and> length xs = 250 \<and>
    (\<forall>x \<in> set xs. shape_ok x) \<longrightarrow>
      comments (mount P True ok1 ok2 (Some raw)) = take 200 xs \<and>
      length (comments (mount P True ok1 ok2 (Some raw))) = 200) \<and>
   (raw \<noteq> [] \<and> JSON_parse P raw = Some (JArr [c, JObj kvs]) \<and> shape_ok c \<and>
    map_of kvs ''text'' = None \<longrightarrow>
      comments (mount P True ok1 ok2 (Some raw)) = [c])"
proof (intro conjI impI)
  show "comments (mount P readable ok1 ok2 None) = []"
    by (simp add: comments_mount load_effect_absent storage_initial)
  show "comments (mount P readable ok1 ok2 (Some [])) = []"
    by (simp add: comments_mount load_effect_blank storage_initial)
  show "comments (mount P False ok1 ok2 stored) = []"
    by (simp add: comments_mount load_effect_unreadable)
  show "comments (mount P readable ok1 ok2 (Some raw)) = []" if "JSON_parse P raw = None"
    using that
    by (simp add: comments_mount load_effect_unparseable [where raw = raw] storage_initial)
  show "comments (mount P readable ok1 ok2 (Some raw)) = []"
    if "JSON_parse P raw = Some v \<and> (\<forall>xs. v \<noteq> JArr xs)"
    using that
    by (simp add: comments_mount load_effect_not_array [where raw = raw and v = v]
        storage_initial)
  show "comments (mount P True ok1 ok2 (Some raw)) = take 200 (filter shape_ok xs)"
    if "raw \<noteq> [] \<and> JSON_parse P raw = Some (JArr xs)"
    using that by (simp add: comments_mount_array)
  show "comments (mount P True ok1 ok2 (Some raw)) = take 200 xs"
    if "raw \<noteq> [] \<and> JSON_parse P raw = Some (JArr xs) \<and> length xs = 250 \<and>
        (\<forall>x \<in> set xs. shape_ok x)"
    using that by (simp add: comments_mount_array)
  show "length (comments (mount P True ok1 ok2 (Some raw))) = 200"
    if "raw \<noteq> [] \<and> JSON_parse P raw = Some (JArr xs) \<and> length xs = 250 \<and>
        (\<forall>x \<in> set xs. shape_ok x)"
    using that by (simp add: comments_mount_array)
  show "comments (mount P True ok1 ok2 (Some raw)) = [c]"
    if "raw \<noteq> [] \<and> JSON_parse P raw = Some (JArr [c, JObj kvs]) \<and> shape_ok c \<and>
        map_of kvs ''text'' = None"
    using that by (simp add: comments_mount_array shape_ok_def typeof_def)
qed

theorem initialize_comment_list_witness:
  "comments (mount (table_platform [(raw250, JArr (replicate 250 valid_comment))])
      True True True (Some raw250)) = replicate 200 valid_comment \<and>
   comments (mount (table_platform
        [(array_text [valid_text, no_text_text], JArr [valid_comment, no_text_comment])])
      True True True (Some (array_text [valid_text, no_text_text]))) = [valid_comment] \<and>
   comments (mount (table_platform []) True True True (Some ''not json'')) = ([] :: int json list)"
proof -
  let ?P = "table_platform [(raw250, JArr (replicate 250 valid_comment))]"
  let ?two = "array_text [valid_text, no_text_text]"
  let ?Q = "table_platform [(?two, JArr [valid_comment, no_text_comment])]"
  let ?E = "table_platform [] :: int platform"
  have p: "JSON_parse ?P raw250 = Some (JArr (replicate 250 valid_comment))"
    by (simp add: table_platform_def)
  have a: "raw250 \<noteq> [] \<and> JSON_parse ?P raw250 = Some (JArr (replicate 250 valid_comment)) \<and>
      length (replicate 250 valid_comment) = 250 \<and>
      (\<forall>x \<in> set (replicate 250 valid_comment). shape_ok x)"
    using p by (simp add: raw250_not_Nil shape_ok_valid_comment)
  have b: "?two \<noteq> [] \<and>
      JSON_parse ?Q ?two = Some (JArr [valid_comment, JObj [(''type'', JStr ''General Comment''),
         (''createdAt'', JNum 2)]]) \<and>
      shape_ok valid_comment \<and>
      map_of [(''type'', JStr ''General Comment''), (''createdAt'', JNum (2::int))] ''text'' = None"
    by (simp add: table_platform_def array_text_def shape_ok_valid_comment no_text_comment_def)
  have c: "JSON_parse ?E ''not json'' = None"
    by (simp add: table_platform_def)
  from a have r1: "comments (mount ?P True True True (Some raw250)) = replicate 200 valid_comment"
    using initialize_comment_list [where P = ?P and raw = raw250
        and xs = "replicate 250 valid_comment" and ?ok1.0 = True and ?ok2.0 = True]
    by simp
  from b have r2: "comments (mount ?Q True True True (Some ?two)) = [valid_comment]"
    using initialize_comment_list [where P = ?Q and raw = ?two and c = valid_comment
        and kvs = "[(''type'', JStr ''General Comment''), (''createdAt'', JNum 2)]"
        and ?ok1.0 = True and ?ok2.0 = True]
    by blast
  from c have r3: "comments (mount ?E True True True (Some ''not json'')) = []"
    using initialize_comment_list [where P = ?E and raw = "''not json''"
        and readable = True and ?ok1.0 = True and ?ok2.0 = True]
    by blast
  show ?thesis by (intro conjI r1 r2 r3)
qed

text \<open>
  C4. A submission whose text does not trim to the empty string puts exactly one new
  comment at the head of the list: its text is the trimmed text, its type the chosen
  one, its createdAt the clock reading of the call (so at least any time read before
  it, the clock being an input here); the comments that were there follow, each one
  position later.
\<close>

theorem submit_prepends:
  fixes now :: "'n::ord"
  assumes "trim rawText \<noteq> []"
  shows "comments (submit P now ok kind rawText w) =
           JObj [(''type'', JStr (type_label kind)), (''text'', JStr (trim rawText)),
                 (''createdAt'', JNum now)] # comments w \<and>
         length (comments (submit P now ok kind rawText w)) = Suc (length (comments w)) \<and>
         (\<forall>i < length (comments w).
            comments (submit P now ok kind rawText w) ! Suc i = comments w ! i) \<and>
         (\<forall>t0. t0 \<le> now \<longrightarrow>
            (\<exists>t. get_prop (hd (comments (submit P now ok kind rawText w))) ''createdAt''
                   = Some (JNum t) \<and> t0 \<le> t))"
  using assms by (simp add: comments_submit new_comment_def)

theorem submit_prepends_witness:
  "trim ''  hello  '' \<noteq> [] \<and>
   comments (submit (table_platform []) (1730550000000 :: int) True GeneralComment
       ''  hello  '' (initial None)) =
     [JObj [(''type'', JStr ''General Comment''), (''text'', JStr ''hello''),
            (''createdAt'', JNum 1730550000000)]]"
proof -
  have t: "trim ''  hello  '' = ''hello''" by code_simp
  then have h: "trim ''  hello  '' \<noteq> []" by simp
  show ?thesis
    using h t submit_prepends [OF h, of "table_platform []" "1730550000000 :: int" True
        GeneralComment "initial None"]
    by (simp add: initial_def)
qed

text \<open>
  C5. A submission whose text trims to the empty string changes nothing in the store:
  the comment list, the slot and the log of writes stay as they were, and the handler
  returns the state it was given (the form keeps what was typed); no error comes out.
\<close>

theorem submit_blank_noop:
  assumes "trim rawText = []"
  shows "comments (submit P now ok kind rawText w) = comments w \<and>
         storage (submit P now ok kind rawText w) = storage w \<and>
         writes (submit P now ok kind rawText w) = writes w \<and>
         submit P now ok kind rawText w = setText rawText (setType kind w) \<and>
         handleSubmit P now ok (setText rawText w) = setText rawText w"
  using assms by (simp add: submit_def handleSubmit_def setText_def setType_def)

theorem submit_blank_noop_witness:
  "trim ''   '' = [] \<and>
   comments (submit (table_platform []) (5 :: int) True RequestToEditSteps ''   ''
      (initial None)) = [] \<and>
   writes (submit (table_platform []) (5 :: int) True RequestToEditSteps ''   ''
      (initial None)) = []"
proof -
  have h: "trim ''   '' = []" by code_simp
  show ?thesis
    using h submit_blank_noop [OF h, of "table_platform []" "5 :: int" True
        RequestToEditSteps "initial None"]
    by (simp add: initial_def setText_def setType_def)
qed

text \<open>
  C3, as the specification states it, fails: the cap of 200 is applied when the list
  is loaded and nowhere else. A slot holding 200 valid comments followed by one
  submission gives a list of 201.
\<close>

theorem length_cap_counterexample:
  "\<not> length (comments (session (table_platform [(raw200, JArr (replicate 200 valid_comment))])
        True True True (Some raw200) [Submission GeneralComment ''hi'' 1730550000000 True]))
      \<le> 200"
proof -
  let ?P = "table_platform [(raw200, JArr (replicate 200 valid_comment))]"
  have p: "JSON_parse ?P raw200 = Some (JArr (replicate 200 valid_comment))"
    by (simp add: table_platform_def)
  have m: "comments (mount ?P True True True (Some raw200)) = replicate 200 valid_comment"
    using comments_mount_array [OF raw200_not_Nil p] by (simp add: shape_ok_valid_comment)
  have t: "trim ''hi'' \<noteq> []" by code_simp
  have "length (comments (session ?P True True True (Some raw200)
      [Submission GeneralComment ''hi'' 1730550000000 True])) = 201"
    using t m by (simp add: session_def comments_submit)
  then show ?thesis by simp
qed

text \<open>
  C3, amended. The comment list has at most 200 elements after initialisation; every
  accepted submission adds one element and a rejected one none, so after \<open>n\<close>
  submissions the list has at most \<open>200 + n\<close> elements.
\<close>

theorem length_cap_at_load:
  "length (comments (mount P readable ok1 ok2 stored)) \<le> 200 \<and>
   length (comments (session P readable ok1 ok2 stored subs))
     = length (comments (mount P readable ok1 ok2 stored)) + length (filter accepted subs) \<and>
   length (comments (session P readable ok1 ok2 stored subs)) \<le> 200 + length subs"
proof -
  have a: "length (comments (mount P readable ok1 ok2 stored)) \<le> 200"
    by (rule length_comments_mount)
  have b: "length (comments (session P readable ok1 ok2 stored subs))
     = length (comments (mount P readable ok1 ok2 stored)) + length (filter accepted subs)"
    by (simp add: session_def length_comments_fold)
  have "length (filter accepted subs) \<le> length subs"
    by (rule length_filter_le)
  with a b have c: "length (comments (session P readable ok1 ok2 stored subs)) \<le> 200 + length subs"
    by linarith
  show ?thesis by (intro conjI a b c)
qed

theorem length_cap_at_load_witness:
  "length (comments (mount (table_platform [(raw200, JArr (replicate 200 valid_comment))])
      True True True (Some raw200))) \<le> 200 \<and>
   length (comments (session (table_platform [(raw200, JArr (replicate 200 valid_comment))])
      True True True (Some raw200) [Submission GeneralComment ''hi'' 1730550000000 True]))
     \<le> 200 + 1"
  using length_cap_at_load [of "table_platform [(raw200, JArr (replicate 200 valid_comment))]"
      True True True "Some raw200" "[Submission GeneralComment ''hi'' 1730550000000 True]"]
  by simp

text \<open>
  C8, as the specification states it, fails: the shape check of the load effect asks
  for a string, not for a non-empty one. A stored comment whose text is the empty
  string is loaded as it is.
\<close>

theorem nonempty_text_counterexample:
  "\<not> list_all nonempty_text
       (comments (mount (table_platform [(array_text [blank_text], JArr [blank_comment])])
          True True True (Some (array_text [blank_text]))))"
proof -
  let ?raw = "array_text [blank_text]"
  let ?P = "table_platform [(?raw, JArr [blank_comment])]"
  have p: "JSON_parse ?P ?raw = Some (JArr [blank_comment])"
    by (simp add: table_platform_def)
  have n: "?raw \<noteq> []"
    by (simp add: array_text_def)
  have s: "shape_ok blank_comment"
    by (simp add: shape_ok_def blank_comment_def typeof_def)
  have m: "comments (mount ?P True True True (Some ?raw)) = [blank_comment]"
    using comments_mount_array [OF n p] s by simp
  have "\<not> nonempty_text blank_comment"
    by (simp add: nonempty_text_def blank_comment_def)
  with m show ?thesis by simp
qed

text \<open>
  C8, amended. After initialisation from any stored value and any sequence of
  submissions every element of the comment list passes the shape check, so its text
  field is a string; a comment added by a submission has a non-empty text; and every
  element has a non-empty text whenever the stored elements that pass the shape check
  have one.
\<close>

theorem comment_text_invariant:
  "(\<forall>c \<in> set (comments (session P readable ok1 ok2 stored subs)).
      shape_ok c \<and> (\<exists>s. get_prop c ''text'' = Some (JStr s))) \<and>
   (trim rawText \<noteq> [] \<longrightarrow>
      nonempty_text (hd (comments (submit P now ok kind rawText w)))) \<and>
   ((\<forall>x \<in> set (stored_elements P stored). shape_ok x \<longrightarrow> nonempty_text x) \<longrightarrow>
      (\<forall>c \<in> set (comments (session P readable ok1 ok2 stored subs)). nonempty_text c))"
proof (intro conjI impI)
  have "\<forall>c \<in> set (comments (mount P readable ok1 ok2 stored)). shape_ok c"
    using comments_mount_stored [of P readable ok1 ok2 stored] by blast
  then have "\<forall>c \<in> set (comments (session P readable ok1 ok2 stored subs)). shape_ok c"
    unfolding session_def by (rule all_comments_fold) (rule shape_ok_new_comment)
  then show "\<forall>c \<in> set (comments (session P readable ok1 ok2 stored subs)).
      shape_ok c \<and> (\<exists>s. get_prop c ''text'' = Some (JStr s))"
    using shape_ok_text_string by blast
next
  assume "trim rawText \<noteq> []"
  then show "nonempty_text (hd (comments (submit P now ok kind rawText w)))"
    by (simp add: comments_submit nonempty_text_new_comment)
next
  assume "\<forall>x \<in> set (stored_elements P stored). shape_ok x \<longrightarrow> nonempty_text x"
  then have "\<forall>c \<in> set (comments (mount P readable ok1 ok2 stored)). nonempty_text c"
    using comments_mount_stored [of P readable ok1 ok2 stored] by blast
  then show "\<forall>c \<in> set (comments (session P readable ok1 ok2 stored subs)). nonempty_text c"
    unfolding session_def by (rule all_comments_fold) (rule nonempty_text_new_comment)
qed

theorem comment_text_invariant_witness:
  "list_all (\<lambda>c. shape_ok c \<and> nonempty_text c)
     (comments (session (table_platform [(array_text [valid_text], JArr [valid_comment])])
        True True True (Some (array_text [valid_text]))
        [Submission RequestToEditSteps ''  hi '' 1730550000000 True])) \<and>
   length (comments (session (table_platform [(array_text [valid_text], JArr [valid_comment])])
        True True True (Some (array_text [valid_text]))
        [Submission RequestToEditSteps ''  hi '' 1730550000000 True])) = 2 \<and>
   nonempty_text (hd (comments (submit (table_platform [] :: int platform) 7 True GeneralComment
        ''  hi '' (initial None))))"
proof -
  let ?raw = "array_text [valid_text]"
  let ?P = "table_platform [(?raw, JArr [valid_comment])]"
  let ?subs = "[Submission RequestToEditSteps ''  hi '' (1730550000000 :: int) True]"
  have p: "JSON_parse ?P ?raw = Some (JArr [valid_comment])"
    by (simp add: table_platform_def)
  have n: "?raw \<noteq> []"
    by (simp add: array_text_def)
  have e: "stored_elements ?P (Some ?raw) = [valid_comment]"
    by (simp add: stored_elements_def table_platform_def)
  have h: "\<forall>x \<in> set (stored_elements ?P (Some ?raw)). shape_ok x \<longrightarrow> nonempty_text x"
    unfolding e by (simp add: nonempty_text_def valid_comment_def)
  have t: "trim ''  hi '' \<noteq> []" by code_simp
  from comment_text_invariant [where P = ?P and stored = "Some ?raw" and subs = ?subs
      and readable = True and ?ok1.0 = True and ?ok2.0 = True] h
  have r1: "list_all (\<lambda>c. shape_ok c \<and> nonempty_text c)
      (comments (session ?P True True True (Some ?raw) ?subs))"
    unfolding list_all_iff by blast
  have m: "comments (mount ?P True True True (Some ?raw)) = [valid_comment]"
    using comments_mount_array [OF n p] by (simp add: shape_ok_valid_comment)
  have r2: "length (comments (session ?P True True True (Some ?raw) ?subs)) = 2"
    using t m by (simp add: session_def comments_submit)
  from comment_text_invariant [where P = "table_platform [] :: int platform"
      and rawText = "''  hi ''" and now = 7 and ok = True and kind = GeneralComment
      and w = "initial None"] t
  have r3: "nonempty_text (hd (comments (submit (table_platform [] :: int platform) 7 True
      GeneralComment ''  hi '' (initial None))))"
    by blast
  show ?thesis by (intro conjI r1 r2 r3)
qed

text \<open>
  C9. A persistence write that fails is swallowed. The state the component holds (the
  comment list, with the form's type and text) after a session is the one it holds when
  every write of the session goes through, whatever writes failed on the way, so later
  operations work on the same list; the session returns a state, never an error; and a
  failed save leaves both the list and the slot as they were.
\<close>

theorem write_failure_swallowed:
  "in_memory (session P readable ok1 ok2 stored subs)
     = in_memory (session P readable True True stored (map write_succeeds subs)) \<and>
   comments (session P readable ok1 ok2 stored subs)
     = comments (session P readable True True stored (map write_succeeds subs)) \<and>
   in_memory (save_effect P False w) = in_memory w \<and>
   storage (save_effect P False w) = storage w"
proof -
  have a: "in_memory (session P readable ok1 ok2 stored subs)
     = in_memory (session P readable True True stored (map write_succeeds subs))"
    unfolding session_def by (rule in_memory_fold) (rule in_memory_mount)
  then have b: "comments (session P readable ok1 ok2 stored subs)
     = comments (session P readable True True stored (map write_succeeds subs))"
    by (simp add: in_memory_def)
  have c: "in_memory (save_effect P False w) = in_memory w"
    by (simp add: in_memory_def save_effect_fields)
  have d: "storage (save_effect P False w) = storage w"
    by (simp add: save_effect_fields)
  show ?thesis by (intro conjI a b c d)
qed

theorem write_failure_swallowed_witness:
  "comments (session (table_platform [(array_text [valid_text], JArr [valid_comment])])
      True False False (Some (array_text [valid_text]))
      [Submission RequestToEditSteps ''  hi '' 1730550000000 False])
     = [JObj [(''type'', JStr ''Request to Edit Steps''), (''text'', JStr ''hi''),
              (''createdAt'', JNum 1730550000000)],
        valid_comment]"
proof -
  let ?raw = "array_text [valid_text]"
  let ?P = "table_platform [(?raw, JArr [valid_comment])]"
  have p: "JSON_parse ?P ?raw = Some (JArr [valid_comment])"
    by (simp add: table_platform_def)
  have n: "?raw \<noteq> []"
    by (simp add: array_text_def)
  have m: "comments (mount ?P True True True (Some ?raw)) = [valid_comment]"
    using comments_mount_array [OF n p] by (simp add: shape_ok_valid_comment)
  have t: "trim ''  hi '' = ''hi''" by code_simp
  have "comments (session ?P True True True (Some ?raw)
      (map write_succeeds [Submission RequestToEditSteps ''  hi '' 1730550000000 False]))
     = [JObj [(''type'', JStr ''Request to Edit Steps''), (''text'', JStr ''hi''),
              (''createdAt'', JNum 1730550000000)],
        valid_comment]"
    using t m by (simp add: session_def comments_submit new_comment_def)
  then show ?thesis
    using write_failure_swallowed [of ?P True False False "Some ?raw"
        "[Submission RequestToEditSteps ''  hi '' 1730550000000 False]"]
    by simp
qed

text \<open>
  C10. After initialisation (with no user action) and after every submission the
  latest write to the slot is one of the serialised current comment list, and the slot
  holds that text whenever this write went through; every accepted submission triggers
  one such write. Loading a stored array of 250 valid comments writes the slot twice
  during initialisation, the second time with the first 200 only.
\<close>

theorem persist_after_every_operation:
  "persisted P (mount P readable ok1 ok2 stored) \<and>
   persisted P (session P readable ok1 ok2 stored subs) \<and>
   (trim rawText \<noteq> [] \<longrightarrow>
      writes (submit P now ok kind rawText w)
        = writes w @ [(JSON_stringify P (JArr (comments (submit P now ok kind rawText w))), ok)]) \<and>
   (raw \<noteq> [] \<and> JSON_parse P raw = Some (JArr xs) \<and> length xs = 250 \<and>
    (\<forall>x \<in> set xs. shape_ok x) \<longrightarrow>
      writes (mount P True ok1 ok2 (Some raw))
        = [(JSON_stringify P (JArr []), ok1), (JSON_stringify P (JArr (take 200 xs)), ok2)] \<and>
      (ok2 \<longrightarrow> storage (mount P True ok1 ok2 (Some raw))
                = Some (JSON_stringify P (JArr (take 200 xs)))))"
proof (intro conjI impI)
  show "persisted P (mount P readable ok1 ok2 stored)"
    by (rule persisted_mount)
  show "persisted P (session P readable ok1 ok2 stored subs)"
    unfolding session_def by (rule persisted_fold) (rule persisted_mount)
  show "writes (submit P now ok kind rawText w)
        = writes w @ [(JSON_stringify P (JArr (comments (submit P now ok kind rawText w))), ok)]"
    if "trim rawText \<noteq> []"
    using that by (simp add: submit_accepted save_effect_fields)
next
  assume h: "raw \<noteq> [] \<and> JSON_parse P raw = Some (JArr xs) \<and> length xs = 250 \<and>
    (\<forall>x \<in> set xs. shape_ok x)"
  then have l: "load_effect P True (initial (Some raw)) = Some (take 200 xs)"
    using load_effect_array [of "initial (Some raw)" raw P xs] by (simp add: storage_initial)
  show "writes (mount P True ok1 ok2 (Some raw))
        = [(JSON_stringify P (JArr []), ok1), (JSON_stringify P (JArr (take 200 xs)), ok2)]"
    by (simp add: mount_def Let_def l save_effect_fields initial_fields)
  show "storage (mount P True ok1 ok2 (Some raw))
                = Some (JSON_stringify P (JArr (take 200 xs)))" if ok2
    using that by (simp add: mount_def Let_def l save_effect_fields)
qed

theorem persist_after_every_operation_witness:
  "storage (mount (table_platform [(raw250, JArr (replicate 250 valid_comment)),
        (raw200, JArr (replicate 200 valid_comment)), (''[]'', JArr [])])
      True True True (Some raw250)) = Some raw200 \<and>
   writes (mount (table_platform [(raw250, JArr (replicate 250 valid_comment)),
        (raw200, JArr (replicate 200 valid_comment)), (''[]'', JArr [])])
      True True True (Some raw250)) = [(''[]'', True), (raw200, True)] \<and>
   writes (submit (table_platform []) (7 :: int) False GeneralComment ''hi'' (initial None))
     = [([], False)]"
proof -
  let ?P = "table_platform [(raw250, JArr (replicate 250 valid_comment)),
        (raw200, JArr (replicate 200 valid_comment)), (''[]'', JArr [])]"
  have p: "JSON_parse ?P raw250 = Some (JArr (replicate 250 valid_comment))"
    by (simp add: table_platform_def)
  have s0: "JSON_stringify ?P (JArr []) = ''[]''"
    by (simp add: table_platform_def)
  have s200: "JSON_stringify ?P (JArr (take 200 (replicate 250 valid_comment))) = raw200"
    by (simp add: table_platform_def)
  have a: "raw250 \<noteq> [] \<and> JSON_parse ?P raw250 = Some (JArr (replicate 250 valid_comment)) \<and>
      length (replicate 250 valid_comment) = 250 \<and>
      (\<forall>x \<in> set (replicate 250 valid_comment). shape_ok x)"
    using p by (simp add: raw250_not_Nil shape_ok_valid_comment)
  have t: "trim ''hi'' \<noteq> []" by code_simp
  note inst = persist_after_every_operation [of ?P True True True "Some raw250" "[]" "''hi''"
      "7 :: int" False GeneralComment "initial None" raw250 "replicate 250 valid_comment"]
  from inst a have r1: "storage (mount ?P True True True (Some raw250)) = Some raw200"
    unfolding s200 by blast
  from inst a have r2: "writes (mount ?P True True True (Some raw250))
      = [(''[]'', True), (raw200, True)]"
    unfolding s200 s0 by blast
  note inst2 = persist_after_every_operation [of "table_platform [] :: int platform" True True
      True None "[]" "''hi''" "7 :: int" False GeneralComment "initial None"]
  from inst2 t have r3: "writes (submit (table_platform []) (7 :: int) False GeneralComment ''hi''
      (initial None)) = [([], False)]"
    by (simp add: initial_def table_platform_def)
  show ?thesis by (intro conjI r1 r2 r3)
qed

end
